theory Spec2Isabelle
  imports Complex_Main
begin

section \<open>Water ATM: data model\<close>

text \<open>
  The embedding follows \<^verbatim>\<open>Water_ATM.c\<close>. Conventions:
  \<^item> a C \<^verbatim>\<open>double\<close> is a \<^typ>\<open>real\<close>: amounts are exact, rounding of the
    binary floating-point format is not modelled;
  \<^item> a C \<^verbatim>\<open>int\<close> is an \<^typ>\<open>int\<close> whose arithmetic results go through
    \<open>int32\<close>, the two's complement wrap-around to 32 bits (C leaves signed overflow
    undefined; statements about exact values carry the range they need);
  \<^item> \<^verbatim>\<open>time_t\<close> is an \<^typ>\<open>int\<close> (seconds), and the clock \<^verbatim>\<open>time(NULL)\<close> is
    an argument \<open>now\<close> of every operation that reads it (one reading for the whole
    operation);
  \<^item> the global arrays \<^verbatim>\<open>users\<close> and \<^verbatim>\<open>transactions\<close> with their counters
    \<^verbatim>\<open>user_count\<close> and \<^verbatim>\<open>transaction_count\<close> are lists, the counter being the length;
  \<^item> a \<^verbatim>\<open>User*\<close> returned by \<^verbatim>\<open>find_user\<close> is an index into the list, and a
    write through the pointer is a list update at that index;
  \<^item> each \<^verbatim>\<open>void\<close> operation returns what it reports (an error for every early
    \<^verbatim>\<open>return\<close>, a receipt otherwise) together with the state it leaves behind.
\<close>

definition MAX_USERS :: nat where "MAX_USERS = 1000"
definition MAX_TRANSACTIONS :: nat where "MAX_TRANSACTIONS = 5000"
definition WATER_PRICE_PER_LITER :: real where "WATER_PRICE_PER_LITER = 2.0"
definition DIGITAL_FEE :: real where "DIGITAL_FEE = 1.0"
definition MIN_BULK_LITERS :: real where "MIN_BULK_LITERS = 10"
definition LOYALTY_THRESHOLD :: real where "LOYALTY_THRESHOLD = 50.0"
definition WEEKLY_PASS_COST :: real where "WEEKLY_PASS_COST = 15.0"
definition MONTHLY_PASS_COST :: real where "MONTHLY_PASS_COST = 50.0"

definition in_int32 :: "int \<Rightarrow> bool" where
  "in_int32 x = (- 2147483648 \<le> x \<and> x \<le> 2147483647)"

definition int32 :: "int \<Rightarrow> int" where
  "int32 x = (x + 2147483648) mod 4294967296 - 2147483648"

definition double_to_int :: "real \<Rightarrow> int" where
  \<comment> \<open>the cast \<^verbatim>\<open>(int)amount\<close>: truncation toward zero\<close>
  "double_to_int x = int32 (if 0 \<le> x then \<lfloor>x\<rfloor> else \<lceil>x\<rceil>)"

record user =
  user_id :: int
  name :: string
  phone :: string
  wallet_balance :: real
  total_spent :: real
  transaction_count :: int
  loyalty_points :: int
  has_weekly_pass :: int
  has_monthly_pass :: int
  pass_expiry :: int
  is_student :: int

record transaction =
  transaction_id :: int
  txn_user_id :: int
  amount :: real
  liters :: real
  payment_method :: string
  fee_charged :: real
  discount_applied :: real
  timestamp :: int

record analytics =
  total_revenue :: real
  total_fees_collected :: real
  total_discounts_given :: real
  cash_transactions :: int
  digital_transactions :: int
  bulk_purchases :: int
  pass_holders :: int

record system =
  users :: "user list"
  transactions :: "transaction list"
  stats :: analytics

datatype error =
  UserNotFound | InvalidQuantity | InvalidAmount | InvalidPaymentMethod
  | InvalidPassType | InsufficientFunds | UserLimitReached

record receipt =
  base_cost :: real
  discount :: real
  fee :: real
  final_amount :: real

definition initial_system :: system where
  "initial_system =
     \<lparr>users = [], transactions = [],
      stats = \<lparr>total_revenue = 0, total_fees_collected = 0, total_discounts_given = 0,
               cash_transactions = 0, digital_transactions = 0, bulk_purchases = 0,
               pass_holders = 0\<rparr>\<rparr>"

section \<open>Utility and calculation functions\<close>

fun find_user_from :: "user list \<Rightarrow> nat \<Rightarrow> int \<Rightarrow> nat option" where
  "find_user_from [] i uid = None"
| "find_user_from (u # us) i uid =
     (if user_id u = uid then Some i else find_user_from us (Suc i) uid)"

definition find_user :: "user list \<Rightarrow> int \<Rightarrow> nat option" where
  "find_user us uid = find_user_from us 0 uid"

definition is_pass_valid :: "user \<Rightarrow> int \<Rightarrow> bool" where
  "is_pass_valid u now =
     ((has_weekly_pass u \<noteq> 0 \<or> has_monthly_pass u \<noteq> 0) \<and> now < pass_expiry u)"

definition calculate_bulk_discount :: "real \<Rightarrow> real" where
  "calculate_bulk_discount l =
     (if l \<ge> 20 then 4.0 else if l \<ge> 15 then 3.0 else if l \<ge> 10 then 2.0 else 0.0)"

definition calculate_loyalty_discount :: "user \<Rightarrow> real" where
  "calculate_loyalty_discount u = total_spent u * 0.05"

definition calculate_discount :: "user \<Rightarrow> real \<Rightarrow> string \<Rightarrow> real \<times> user" where
  "calculate_discount u l method =
     (let d0 = 0.0;
          d1 = (if is_student u \<noteq> 0 then d0 + (l * WATER_PRICE_PER_LITER) * 0.10 else d0);
          d2 = (if l \<ge> MIN_BULK_LITERS then d1 + calculate_bulk_discount l else d1);
          d3 = (if total_spent u \<ge> LOYALTY_THRESHOLD
                then d2 + calculate_loyalty_discount u else d2)
      in if loyalty_points u \<ge> 100
         then (d3 + 5.0, u\<lparr>loyalty_points := int32 (loyalty_points u - 100)\<rparr>)
         else (d3, u))"

definition update_loyalty_points :: "user \<Rightarrow> real \<Rightarrow> user" where
  "update_loyalty_points u a =
     u\<lparr>loyalty_points := int32 (loyalty_points u + double_to_int a)\<rparr>"

definition save_transaction ::
  "transaction list \<Rightarrow> int \<Rightarrow> real \<Rightarrow> real \<Rightarrow> string \<Rightarrow> real \<Rightarrow> real \<Rightarrow> int
     \<Rightarrow> transaction list" where
  "save_transaction txns uid amt l method f d now =
     (if length txns \<ge> MAX_TRANSACTIONS then txns
      else txns @ [\<lparr>transaction_id = int32 (int (length txns) + 1), txn_user_id = uid,
                    amount = amt, liters = l, payment_method = method, fee_charged = f,
                    discount_applied = d, timestamp = now\<rparr>])"

section \<open>Operations\<close>

definition register_user :: "system \<Rightarrow> string \<Rightarrow> string \<Rightarrow> int \<Rightarrow> (error + int) \<times> system" where
  "register_user s nm ph student =
     (if length (users s) \<ge> MAX_USERS then (Inl UserLimitReached, s)
      else
        let new_user = \<lparr>user_id = int32 (int (length (users s)) + 1), name = nm, phone = ph,
                         wallet_balance = 0.0, total_spent = 0.0, transaction_count = 0,
                         loyalty_points = 0, has_weekly_pass = 0, has_monthly_pass = 0,
                         pass_expiry = 0, is_student = student\<rparr>
        in (Inr (user_id new_user), s\<lparr>users := users s @ [new_user]\<rparr>))"

definition top_up_wallet :: "system \<Rightarrow> int \<Rightarrow> real \<Rightarrow> (error + real) \<times> system" where
  "top_up_wallet s uid amt =
     (case find_user (users s) uid of
        None \<Rightarrow> (Inl UserNotFound, s)
      | Some i \<Rightarrow>
          if amt \<le> 0 then (Inl InvalidAmount, s)
          else
            let u = users s ! i;
                u1 = u\<lparr>wallet_balance := wallet_balance u + amt\<rparr>;
                u2 = (if amt \<ge> 100
                      then u1\<lparr>wallet_balance := wallet_balance u1 + amt * 0.02\<rparr> else u1)
            in (Inr (wallet_balance u2), s\<lparr>users := (users s)[i := u2]\<rparr>))"

text \<open>
  The payment branch of \<^verbatim>\<open>purchase_water\<close> (the \<^verbatim>\<open>if (payment_choice == 1) ... else if
  (payment_choice == 2) ... else\<close> block): it yields the method name, the fee, the discount
  and the final amount, with the user record and the counters as the branch leaves them.
  On the early \<^verbatim>\<open>return\<close> for an insufficient balance the user record is the one
  \<^verbatim>\<open>calculate_discount\<close> has already written to.
\<close>

definition payment ::
  "user \<Rightarrow> analytics \<Rightarrow> real \<Rightarrow> int \<Rightarrow> int
     \<Rightarrow> (error + string \<times> real \<times> real \<times> real) \<times> user \<times> analytics" where
  "payment u st l payment_choice now =
     (let base = l * WATER_PRICE_PER_LITER in
      if payment_choice = 1 then
        (let (d, u1) = calculate_discount u l ''Cash'';
             final = base - d
         in (Inr (''Cash'', 0.0, d, final), u1,
             st\<lparr>cash_transactions := int32 (cash_transactions st + 1)\<rparr>))
      else if payment_choice = 2 then
        (let (f, d, u1) =
               (if is_pass_valid u now then (0.0, 0.0, u)
                else
                  let (d, u1) = calculate_discount u l ''Digital'' in
                  if l \<ge> MIN_BULK_LITERS then (0.0, d, u1)
                  else if d \<ge> DIGITAL_FEE then (0.0, d, u1)
                  else (let f = DIGITAL_FEE - d in if f < 0 then 0 else f, d, u1));
             final = base - d + f
         in if wallet_balance u1 < final then (Inl InsufficientFunds, u1, st)
            else (Inr (''Digital'', f, d, final),
                  u1\<lparr>wallet_balance := wallet_balance u1 - final\<rparr>,
                  st\<lparr>digital_transactions := int32 (digital_transactions st + 1)\<rparr>))
      else (Inl InvalidPaymentMethod, u, st))"

definition purchase_water ::
  "system \<Rightarrow> int \<Rightarrow> real \<Rightarrow> int \<Rightarrow> int \<Rightarrow> (error + receipt) \<times> system" where
  "purchase_water s uid l payment_choice now =
     (case find_user (users s) uid of
        None \<Rightarrow> (Inl UserNotFound, s)
      | Some i \<Rightarrow>
          if l \<le> 0 then (Inl InvalidQuantity, s)
          else
            let base = l * WATER_PRICE_PER_LITER in
            case payment (users s ! i) (stats s) l payment_choice now of
              (Inl e, u1, st1) \<Rightarrow> (Inl e, s\<lparr>users := (users s)[i := u1], stats := st1\<rparr>)
            | (Inr (method, f, d, final), u1, st1) \<Rightarrow>
                let u2 = u1\<lparr>total_spent := total_spent u1 + base\<rparr>;
                    u3 = u2\<lparr>transaction_count := int32 (transaction_count u2 + 1)\<rparr>;
                    u4 = update_loyalty_points u3 base;
                    st2 = (if l \<ge> MIN_BULK_LITERS
                           then st1\<lparr>bulk_purchases := int32 (bulk_purchases st1 + 1)\<rparr>
                           else st1);
                    txns = save_transaction (transactions s) uid final l method f d now;
                    st3 = st2\<lparr>total_revenue := total_revenue st2 + base\<rparr>;
                    st4 = st3\<lparr>total_fees_collected := total_fees_collected st3 + f\<rparr>;
                    st5 = st4\<lparr>total_discounts_given := total_discounts_given st4 + d\<rparr>
                in (Inr \<lparr>base_cost = base, discount = d, fee = f, final_amount = final\<rparr>,
                    \<lparr>users = (users s)[i := u4], transactions = txns, stats = st5\<rparr>))"

definition purchase_pass ::
  "system \<Rightarrow> int \<Rightarrow> int \<Rightarrow> int \<Rightarrow> (error + real) \<times> system" where
  "purchase_pass s uid pass_type now =
     (case find_user (users s) uid of
        None \<Rightarrow> (Inl UserNotFound, s)
      | Some i \<Rightarrow>
          if pass_type \<noteq> 1 \<and> pass_type \<noteq> 2 then (Inl InvalidPassType, s)
          else
            let pass_cost = (if pass_type = 1 then WEEKLY_PASS_COST else MONTHLY_PASS_COST);
                pass_days = (if pass_type = 1 then 7 else 30 :: int);
                u = users s ! i
            in if wallet_balance u < pass_cost then (Inl InsufficientFunds, s)
               else
                 let u1 = u\<lparr>wallet_balance := wallet_balance u - pass_cost\<rparr>;
                     u2 = (if pass_type = 1 then u1\<lparr>has_weekly_pass := 1\<rparr>
                           else u1\<lparr>has_monthly_pass := 1\<rparr>);
                     u3 = u2\<lparr>pass_expiry := now + int32 (pass_days * 24 * 60 * 60)\<rparr>;
                     st = (stats s)\<lparr>pass_holders := int32 (pass_holders (stats s) + 1)\<rparr>
                 in (Inr (wallet_balance u3), s\<lparr>users := (users s)[i := u3], stats := st\<rparr>))"

section \<open>The menu loop as a run of requests\<close>

datatype request =
  Register string string int
  | TopUp int real
  | Purchase int real int int
  | BuyPass int int int

fun serve :: "system \<Rightarrow> request \<Rightarrow> system" where
  "serve s (Register nm ph student) = snd (register_user s nm ph student)"
| "serve s (TopUp uid amt) = snd (top_up_wallet s uid amt)"
| "serve s (Purchase uid l payment_choice now) = snd (purchase_water s uid l payment_choice now)"
| "serve s (BuyPass uid pass_type now) = snd (purchase_pass s uid pass_type now)"

definition run :: "system \<Rightarrow> request list \<Rightarrow> system" where
  "run s rs = foldl serve s rs"

section \<open>The analytics recomputed from the ledger\<close>

text \<open>
  These definitions follow the specification's words, not the code: the aggregates as folds
  over the ledger, to be compared with the counters that \<open>purchase_water\<close> maintains.
\<close>

definition ledger_revenue :: "transaction list \<Rightarrow> real" where
  "ledger_revenue txns = sum_list (map (\<lambda>t. liters t * WATER_PRICE_PER_LITER) txns)"

definition ledger_fees :: "transaction list \<Rightarrow> real" where
  "ledger_fees txns = sum_list (map fee_charged txns)"

definition ledger_discounts :: "transaction list \<Rightarrow> real" where
  "ledger_discounts txns = sum_list (map discount_applied txns)"

definition ledger_count :: "string \<Rightarrow> transaction list \<Rightarrow> int" where
  "ledger_count m txns = int (length (filter (\<lambda>t. payment_method t = m) txns))"

definition analytics_consistent :: "system \<Rightarrow> bool" where
  "analytics_consistent s =
     (total_revenue (stats s) = ledger_revenue (transactions s)
      \<and> total_fees_collected (stats s) = ledger_fees (transactions s)
      \<and> total_discounts_given (stats s) = ledger_discounts (transactions s)
      \<and> cash_transactions (stats s) = ledger_count ''Cash'' (transactions s)
      \<and> digital_transactions (stats s) = ledger_count ''Digital'' (transactions s))"

fun is_purchase :: "request \<Rightarrow> bool" where
  "is_purchase (Purchase uid l payment_choice now) = True"
| "is_purchase r = False"

section \<open>Facts about the utilities\<close>

lemmas constants =
  MAX_USERS_def MAX_TRANSACTIONS_def WATER_PRICE_PER_LITER_def DIGITAL_FEE_def
  MIN_BULK_LITERS_def LOYALTY_THRESHOLD_def WEEKLY_PASS_COST_def MONTHLY_PASS_COST_def

lemma int32_id: "in_int32 x \<Longrightarrow> int32 x = x"
  by (simp add: in_int32_def int32_def)

lemma find_user_from_bounds:
  "find_user_from us k uid = Some i \<Longrightarrow>
     k \<le> i \<and> i < k + length us \<and> user_id (us ! (i - k)) = uid"
proof (induction us arbitrary: k)
  case Nil
  then show ?case by simp
next
  case (Cons u us)
  show ?case
  proof (cases "user_id u = uid")
    case True
    with Cons.prems show ?thesis by simp
  next
    case False
    with Cons.prems have "find_user_from us (Suc k) uid = Some i" by simp
    from Cons.IH [OF this] show ?thesis by (auto simp: nth_Cons')
  qed
qed

lemma find_user_Some:
  "find_user us uid = Some i \<Longrightarrow> i < length us \<and> user_id (us ! i) = uid"
  using find_user_from_bounds [of us 0 uid i] by (simp add: find_user_def)

lemma find_user_from_update:
  "j < length us \<Longrightarrow> user_id u' = user_id (us ! j) \<Longrightarrow>
   find_user_from (us[j := u']) k uid = find_user_from us k uid"
proof (induction us arbitrary: j k)
  case Nil
  then show ?case by simp
next
  case (Cons u us)
  then show ?case by (cases j) auto
qed

lemma find_user_update:
  "j < length us \<Longrightarrow> user_id u' = user_id (us ! j) \<Longrightarrow>
   find_user (us[j := u']) uid = find_user us uid"
  by (simp add: find_user_def find_user_from_update)

lemmas operations =
  run_def initial_system_def register_user_def top_up_wallet_def purchase_water_def
  purchase_pass_def payment_def calculate_discount_def calculate_bulk_discount_def
  calculate_loyalty_discount_def update_loyalty_points_def save_transaction_def
  is_pass_valid_def find_user_def double_to_int_def int32_def constants

section \<open>Bulk tiers\<close>

text \<open>
  C6. The bulk discount is a step function of the litres: 4.00 from 20 litres, 3.00 from 15
  to below 20, 2.00 from 10 to below 15, nothing below 10; 9.99 litres give 0, and the
  boundaries 10, 15 and 20 give 2.00, 3.00 and 4.00. The same steps are what
  \<open>calculate_discount\<close> adds for a user with no other discount.
\<close>

theorem bulk_discount_steps:
  "calculate_bulk_discount l =
     (if 20 \<le> l then 4 else if 15 \<le> l then 3 else if 10 \<le> l then 2 else 0)
   \<and> calculate_bulk_discount 9.99 = 0
   \<and> calculate_bulk_discount 10 = 2
   \<and> calculate_bulk_discount 14.99 = 2
   \<and> calculate_bulk_discount 15 = 3
   \<and> calculate_bulk_discount 20 = 4
   \<and> fst (calculate_discount
            (u\<lparr>is_student := 0, total_spent := 0, loyalty_points := 0\<rparr>) l m)
       = (if 20 \<le> l then 4 else if 15 \<le> l then 3 else if 10 \<le> l then 2 else 0)"
  by (simp add: calculate_bulk_discount_def calculate_discount_def constants)

section \<open>Wallet top-up\<close>

text \<open>
  C8. For a registered user, \<open>top_up_wallet\<close> reports \<open>InvalidAmount\<close> and leaves the
  state as it was for every amount \<open>\<le> 0\<close>; for every amount \<open>> 0\<close> it adds the amount
  to the wallet, and 2 percent of the amount (not of the new balance) on top exactly when
  the amount is at least 100. A top-up of 100 raises the balance by 102, one of 99.99 by
  exactly 99.99.
\<close>

theorem top_up_wallet_contract:
  assumes "find_user (users s) uid = Some i"
  shows "top_up_wallet s uid amt =
          (if amt \<le> 0 then (Inl InvalidAmount, s)
           else
             let nb = wallet_balance (users s ! i) + amt + (if 100 \<le> amt then amt * 0.02 else 0)
             in (Inr nb, s\<lparr>users := (users s)[i := (users s ! i)\<lparr>wallet_balance := nb\<rparr>]\<rparr>))
       \<and> wallet_balance (users (snd (top_up_wallet s uid 100)) ! i)
            = wallet_balance (users s ! i) + 102
       \<and> wallet_balance (users (snd (top_up_wallet s uid 99.99)) ! i)
            = wallet_balance (users s ! i) + 99.99"
  using assms find_user_Some [OF assms]
  by (simp add: top_up_wallet_def Let_def)

theorem top_up_wallet_contract_witness:
  "find_user (users (run initial_system [Register ''Asha'' ''98'' 0])) 1 = Some 0
   \<and> top_up_wallet (run initial_system [Register ''Asha'' ''98'' 0]) 1 (-5)
       = (Inl InvalidAmount, run initial_system [Register ''Asha'' ''98'' 0])
   \<and> fst (top_up_wallet (run initial_system [Register ''Asha'' ''98'' 0]) 1 100) = Inr 102
   \<and> fst (top_up_wallet (run initial_system [Register ''Asha'' ''98'' 0]) 1 99.99) = Inr 99.99"
proof -
  let ?s = "run initial_system [Register ''Asha'' ''98'' 0]"
  have h: "find_user (users ?s) 1 = Some 0" by (simp add: operations)
  have w: "wallet_balance (users ?s ! 0) = 0" by (simp add: operations)
  show ?thesis
    using h w top_up_wallet_contract [OF h, of "-5"] top_up_wallet_contract [OF h, of 100]
      top_up_wallet_contract [OF h, of "99.99"]
    by (simp add: Let_def)
qed

section \<open>Purchases\<close>

lemma payment_fee:
  "payment u st l pc now = (Inr (m, f, d, fin), u1, st1) \<Longrightarrow>
     f = (if pc = 1 then 0 else if is_pass_valid u now then 0 else if 10 \<le> l then 0
          else if 1 \<le> d then 0 else max 0 (1 - d))"
  by (auto simp: payment_def Let_def constants split: if_splits prod.splits)


lemma payment_nonneg_fee:
  "payment u st l pc now = (Inr (m, f, d, fin), u1, st1) \<Longrightarrow> 0 \<le> f"
  by (auto simp: payment_def Let_def constants split: if_splits prod.splits)

lemma purchase_water_Inr:
  assumes "find_user (users s) uid = Some i"
    and "purchase_water s uid l pc now = (Inr r, s')"
  shows "\<exists>m u1 st1.
           payment (users s ! i) (stats s) l pc now
             = (Inr (m, fee r, discount r, final_amount r), u1, st1)
         \<and> 0 < l
         \<and> base_cost r = l * WATER_PRICE_PER_LITER
         \<and> users s' = (users s)[i := update_loyalty_points
              (u1\<lparr>total_spent := total_spent u1 + base_cost r,
                   transaction_count := int32 (transaction_count u1 + 1)\<rparr>) (base_cost r)]
         \<and> transactions s'
             = save_transaction (transactions s) uid (final_amount r) l m (fee r) (discount r) now
         \<and> stats s' =
             (if l \<ge> MIN_BULK_LITERS
              then st1\<lparr>bulk_purchases := int32 (bulk_purchases st1 + 1)\<rparr> else st1)
               \<lparr>total_revenue := total_revenue st1 + base_cost r,
                total_fees_collected := total_fees_collected st1 + fee r,
                total_discounts_given := total_discounts_given st1 + discount r\<rparr>"
  using assms
  by (auto simp: purchase_water_def Let_def split: if_splits prod.splits sum.splits)

lemma payment_stats:
  "payment u st l pc now = (Inr (m, f, d, fin), u1, st1) \<Longrightarrow>
     (pc = 1 \<and> m = ''Cash'' \<and> st1 = st\<lparr>cash_transactions := int32 (cash_transactions st + 1)\<rparr>)
   \<or> (pc = 2 \<and> m = ''Digital''
        \<and> st1 = st\<lparr>digital_transactions := int32 (digital_transactions st + 1)\<rparr>)"
  by (auto simp: payment_def Let_def split: if_splits prod.splits)

text \<open>
  C4. The fee of a successful purchase follows the priority order, the first matching rule
  winning: a cash purchase (choice 1) has fee 0; a digital one has fee 0 with a valid pass,
  otherwise fee 0 from 10 litres, otherwise fee 0 when the discount is at least 1.00,
  otherwise \<open>max 0 (1.00 - discount)\<close>. The fee is never negative, and it is the amount added
  to the collected fees.
\<close>

theorem fee_priority:
  assumes "find_user (users s) uid = Some i"
    and "purchase_water s uid l pc now = (Inr r, s')"
  shows "fee r =
           (if pc = 1 then 0
            else if is_pass_valid (users s ! i) now then 0
            else if 10 \<le> l then 0
            else if 1 \<le> discount r then 0
            else max 0 (1 - discount r))
       \<and> 0 \<le> fee r
       \<and> total_fees_collected (stats s') = total_fees_collected (stats s) + fee r"
proof -
  from purchase_water_Inr [OF assms] obtain m u1 st1 where
    p: "payment (users s ! i) (stats s) l pc now
          = (Inr (m, fee r, discount r, final_amount r), u1, st1)"
    and st: "stats s' =
             (if l \<ge> MIN_BULK_LITERS
              then st1\<lparr>bulk_purchases := int32 (bulk_purchases st1 + 1)\<rparr> else st1)
               \<lparr>total_revenue := total_revenue st1 + base_cost r,
                total_fees_collected := total_fees_collected st1 + fee r,
                total_discounts_given := total_discounts_given st1 + discount r\<rparr>"
    by blast
  from payment_stats [OF p] have "total_fees_collected st1 = total_fees_collected (stats s)"
    by auto
  with st have "total_fees_collected (stats s') = total_fees_collected (stats s) + fee r"
    by simp
  with payment_fee [OF p] payment_nonneg_fee [OF p] show ?thesis by simp
qed

theorem fee_priority_witness:
  "find_user (users (run initial_system [Register ''Ravi'' ''77'' 1, TopUp 1 20])) 1 = Some 0
   \<and> purchase_water (run initial_system [Register ''Ravi'' ''77'' 1, TopUp 1 20]) 1 2 2 0
       = (Inr \<lparr>base_cost = 4, discount = 0.4, fee = 0.6, final_amount = 4.2\<rparr>,
          run initial_system [Register ''Ravi'' ''77'' 1, TopUp 1 20, Purchase 1 2 2 0])
   \<and> fee \<lparr>base_cost = 4, discount = 0.4, fee = 0.6, final_amount = 4.2\<rparr> = max 0 (1 - 0.4)
   \<and> total_fees_collected
       (stats (run initial_system [Register ''Ravi'' ''77'' 1, TopUp 1 20, Purchase 1 2 2 0]))
       = 0.6"
proof -
  let ?s = "run initial_system [Register ''Ravi'' ''77'' 1, TopUp 1 20]"
  let ?s' = "run initial_system [Register ''Ravi'' ''77'' 1, TopUp 1 20, Purchase 1 2 2 0]"
  let ?r = "\<lparr>base_cost = 4, discount = 0.4, fee = 0.6, final_amount = 4.2\<rparr> :: receipt"
  have h: "find_user (users ?s) 1 = Some 0" by (simp add: operations)
  have p: "purchase_water ?s 1 2 2 0 = (Inr ?r, ?s')"
    by (simp add: operations Let_def)
  have t: "total_fees_collected (stats ?s) = 0" by (simp add: operations)
  show ?thesis using h p t fee_priority [OF h p] by simp
qed


section \<open>Loyalty points\<close>

lemma calculate_discount_redeem:
  assumes "in_int32 (loyalty_points u)"
  shows "calculate_discount u l m =
           (if 100 \<le> loyalty_points u
            then (fst (calculate_discount (u\<lparr>loyalty_points := 0\<rparr>) l m) + 5,
                  u\<lparr>loyalty_points := loyalty_points u - 100\<rparr>)
            else (fst (calculate_discount (u\<lparr>loyalty_points := 0\<rparr>) l m), u))"
proof (cases "100 \<le> loyalty_points u")
  case True
  with assms have "in_int32 (loyalty_points u - 100)" by (simp add: in_int32_def)
  then have "int32 (loyalty_points u - 100) = loyalty_points u - 100" by (rule int32_id)
  with True show ?thesis
    by (simp add: calculate_discount_def calculate_loyalty_discount_def Let_def)
next
  case False
  then show ?thesis
    by (simp add: calculate_discount_def calculate_loyalty_discount_def Let_def)
qed

lemma payment_engine:
  "payment u st l pc now = (Inr (m, f, d, fin), u1, st1) \<Longrightarrow>
     d = (if pc = 2 \<and> is_pass_valid u now then 0 else fst (calculate_discount u l m'))
   \<and> loyalty_points u1 =
       (if pc = 2 \<and> is_pass_valid u now then loyalty_points u
        else loyalty_points (snd (calculate_discount u l m')))"
  by (auto simp: payment_def calculate_discount_def Let_def split: if_splits prod.splits)

lemma double_to_int_floor:
  "0 \<le> x \<Longrightarrow> \<lfloor>x\<rfloor> \<le> 2147483647 \<Longrightarrow> double_to_int x = \<lfloor>x\<rfloor>"
proof -
  assume a: "0 \<le> x" "\<lfloor>x\<rfloor> \<le> 2147483647"
  then have "0 \<le> \<lfloor>x\<rfloor>" by simp
  with a have "in_int32 \<lfloor>x\<rfloor>" by (simp add: in_int32_def)
  with a show ?thesis by (simp add: double_to_int_def int32_id)
qed

text \<open>
  C5. When the discount engine runs for a user with at least 100 loyalty points, exactly 100
  points are deducted and a flat 5.00 is added to the discount, once, however many points
  there are; the engine runs on every purchase except a digital one under a valid pass.
  Every successful purchase, cash or digital, then awards \<open>\<lfloor>base_cost\<rfloor>\<close> points on top of
  what the redemption left. The statement is for point balances and base costs that fit
  the C \<^verbatim>\<open>int\<close>, where the cast and the additions are defined.
\<close>

theorem loyalty_redemption_and_award:
  assumes "find_user (users s) uid = Some i"
    and "in_int32 (loyalty_points (users s ! i))"
    and "purchase_water s uid l pc now = (Inr r, s')"
    and "\<lfloor>base_cost r\<rfloor> \<le> 2147483647"
    and "loyalty_points (users s ! i) + \<lfloor>base_cost r\<rfloor> \<le> 2147483647"
  shows "calculate_discount (users s ! i) l m =
           (if 100 \<le> loyalty_points (users s ! i)
            then (fst (calculate_discount ((users s ! i)\<lparr>loyalty_points := 0\<rparr>) l m) + 5,
                  (users s ! i)\<lparr>loyalty_points := loyalty_points (users s ! i) - 100\<rparr>)
            else (fst (calculate_discount ((users s ! i)\<lparr>loyalty_points := 0\<rparr>) l m),
                  users s ! i))
       \<and> discount r =
           (if pc = 2 \<and> is_pass_valid (users s ! i) now then 0
            else fst (calculate_discount (users s ! i) l m))
       \<and> loyalty_points (users s' ! i) =
           (if pc = 2 \<and> is_pass_valid (users s ! i) now then loyalty_points (users s ! i)
            else if 100 \<le> loyalty_points (users s ! i) then loyalty_points (users s ! i) - 100
            else loyalty_points (users s ! i))
           + \<lfloor>base_cost r\<rfloor>"
proof -
  let ?u = "users s ! i"
  from purchase_water_Inr [OF assms(1) assms(3)] obtain mm u1 st1 where
    p: "payment ?u (stats s) l pc now = (Inr (mm, fee r, discount r, final_amount r), u1, st1)"
    and l: "0 < l" and b: "base_cost r = l * WATER_PRICE_PER_LITER"
    and us: "users s' = (users s)[i := update_loyalty_points
              (u1\<lparr>total_spent := total_spent u1 + base_cost r,
                   transaction_count := int32 (transaction_count u1 + 1)\<rparr>) (base_cost r)]"
    by blast
  have i: "i < length (users s)" using find_user_Some [OF assms(1)] by simp
  have red: "calculate_discount ?u l m =
           (if 100 \<le> loyalty_points ?u
            then (fst (calculate_discount (?u\<lparr>loyalty_points := 0\<rparr>) l m) + 5,
                  ?u\<lparr>loyalty_points := loyalty_points ?u - 100\<rparr>)
            else (fst (calculate_discount (?u\<lparr>loyalty_points := 0\<rparr>) l m), ?u))"
    by (rule calculate_discount_redeem [OF assms(2)])
  from payment_engine [OF p, of m] have
    d: "discount r = (if pc = 2 \<and> is_pass_valid ?u now then 0 else fst (calculate_discount ?u l m))"
    and lp1: "loyalty_points u1 =
       (if pc = 2 \<and> is_pass_valid ?u now then loyalty_points ?u
        else loyalty_points (snd (calculate_discount ?u l m)))"
    by simp_all
  let ?a = "if pc = 2 \<and> is_pass_valid ?u now then loyalty_points ?u
            else if 100 \<le> loyalty_points ?u then loyalty_points ?u - 100
            else loyalty_points ?u"
  have lp1': "loyalty_points u1 = ?a" using lp1 red by simp
  have nonneg: "0 \<le> base_cost r" using l b by (simp add: constants)
  then have fl: "0 \<le> \<lfloor>base_cost r\<rfloor>" by simp
  have cast: "double_to_int (base_cost r) = \<lfloor>base_cost r\<rfloor>"
    by (rule double_to_int_floor [OF nonneg assms(4)])
  have "in_int32 (?a + \<lfloor>base_cost r\<rfloor>)"
    using assms(2) assms(5) fl by (auto simp: in_int32_def simp del: zero_le_floor)
  then have "int32 (?a + \<lfloor>base_cost r\<rfloor>) = ?a + \<lfloor>base_cost r\<rfloor>" by (rule int32_id)
  with us i lp1' cast have "loyalty_points (users s' ! i) = ?a + \<lfloor>base_cost r\<rfloor>"
    by (simp add: update_loyalty_points_def)
  with red d show ?thesis by blast
qed

theorem loyalty_redemption_and_award_witness:
  "find_user (users (run initial_system [Register ''Mina'' ''55'' 0, Purchase 1 125 1 0])) 1
     = Some 0
   \<and> loyalty_points (users (run initial_system [Register ''Mina'' ''55'' 0, Purchase 1 125 1 0]) ! 0)
       = 250
   \<and> in_int32 250
   \<and> purchase_water (run initial_system [Register ''Mina'' ''55'' 0, Purchase 1 125 1 0])
        1 9.995 1 7
       = (Inr \<lparr>base_cost = 19.99, discount = 17.5, fee = 0, final_amount = 2.49\<rparr>,
          run initial_system
            [Register ''Mina'' ''55'' 0, Purchase 1 125 1 0, Purchase 1 9.995 1 7])
   \<and> \<lfloor>19.99 :: real\<rfloor> = 19
   \<and> loyalty_points
       (users (run initial_system
                 [Register ''Mina'' ''55'' 0, Purchase 1 125 1 0, Purchase 1 9.995 1 7]) ! 0)
       = 250 - 100 + 19"
proof -
  let ?s = "run initial_system [Register ''Mina'' ''55'' 0, Purchase 1 125 1 0]"
  let ?s' = "run initial_system
               [Register ''Mina'' ''55'' 0, Purchase 1 125 1 0, Purchase 1 9.995 1 7]"
  let ?r = "\<lparr>base_cost = 19.99, discount = 17.5, fee = 0, final_amount = 2.49\<rparr> :: receipt"
  have h: "find_user (users ?s) 1 = Some 0" by (simp add: operations Let_def)
  have lp: "loyalty_points (users ?s ! 0) = 250" by (simp add: operations Let_def)
  have r: "in_int32 (loyalty_points (users ?s ! 0))" by (simp add: lp in_int32_def)
  have p: "purchase_water ?s 1 9.995 1 7 = (Inr ?r, ?s')" by (simp add: operations Let_def)
  have f: "\<lfloor>base_cost ?r\<rfloor> \<le> 2147483647" by simp
  have g: "loyalty_points (users ?s ! 0) + \<lfloor>base_cost ?r\<rfloor> \<le> 2147483647"
    by (simp add: lp)
  show ?thesis
    using h lp p loyalty_redemption_and_award [OF h r p f g, of "''Cash''"]
    by (simp add: in_int32_def)
qed


section \<open>Passes\<close>

lemma int32_pass_seconds: "int32 604800 = 604800" "int32 2592000 = 2592000"
  by (simp_all add: int32_def)

lemma purchase_pass_success:
  assumes "find_user (users s) uid = Some i"
    and "pt = 1 \<or> pt = 2"
    and "\<not> wallet_balance (users s ! i) < (if pt = 1 then WEEKLY_PASS_COST else MONTHLY_PASS_COST)"
  shows "purchase_pass s uid pt now =
     (Inr (wallet_balance (users s ! i) - (if pt = 1 then WEEKLY_PASS_COST else MONTHLY_PASS_COST)),
      s\<lparr>users := (users s)[i :=
            (if pt = 1
             then (users s ! i)\<lparr>wallet_balance := wallet_balance (users s ! i) - WEEKLY_PASS_COST,
                                has_weekly_pass := 1, pass_expiry := now + 604800\<rparr>
             else (users s ! i)\<lparr>wallet_balance := wallet_balance (users s ! i) - MONTHLY_PASS_COST,
                                has_monthly_pass := 1, pass_expiry := now + 2592000\<rparr>)],
        stats := (stats s)\<lparr>pass_holders := int32 (pass_holders (stats s) + 1)\<rparr>\<rparr>)"
  using assms by (auto simp: purchase_pass_def Let_def int32_pass_seconds)

lemma purchase_pass_failure:
  assumes "find_user (users s) uid = Some i"
    and "pt = 1 \<or> pt = 2"
    and "wallet_balance (users s ! i) < (if pt = 1 then WEEKLY_PASS_COST else MONTHLY_PASS_COST)"
  shows "purchase_pass s uid pt now = (Inl InsufficientFunds, s)"
  using assms by (auto simp: purchase_pass_def Let_def)

text \<open>
  C7. For a registered user and a pass type 1 (weekly, 15.00, 7 days) or 2 (monthly, 50.00,
  30 days), \<open>purchase_pass\<close> reports \<open>InsufficientFunds\<close> and changes nothing when the
  wallet holds less than the cost; otherwise it deducts the cost, sets the flag of the kind,
  sets the expiry to \<open>now\<close> plus the duration whatever the expiry was before, and adds one
  to the pass holder count. Buying a weekly and then at once a monthly pass leaves the
  monthly flag set and the expiry at \<open>now\<close> plus 30 days.
\<close>

theorem purchase_pass_contract:
  assumes "find_user (users s) uid = Some i"
    and "pt = 1 \<or> pt = 2"
    and "in_int32 (pass_holders (stats s) + 1)"
  shows "(if wallet_balance (users s ! i) < (if pt = 1 then 15 else 50)
          then purchase_pass s uid pt now = (Inl InsufficientFunds, s)
          else fst (purchase_pass s uid pt now)
                 = Inr (wallet_balance (users s ! i) - (if pt = 1 then 15 else 50))
             \<and> wallet_balance (users (snd (purchase_pass s uid pt now)) ! i)
                 = wallet_balance (users s ! i) - (if pt = 1 then 15 else 50)
             \<and> pass_expiry (users (snd (purchase_pass s uid pt now)) ! i)
                 = now + (if pt = 1 then 7 else 30) * 24 * 60 * 60
             \<and> (if pt = 1 then has_weekly_pass (users (snd (purchase_pass s uid pt now)) ! i)
                 else has_monthly_pass (users (snd (purchase_pass s uid pt now)) ! i)) = 1
             \<and> pass_holders (stats (snd (purchase_pass s uid pt now)))
                 = pass_holders (stats s) + 1)
       \<and> (65 \<le> wallet_balance (users s ! i) \<longrightarrow>
            has_monthly_pass
              (users (snd (purchase_pass (snd (purchase_pass s uid 1 now)) uid 2 now)) ! i) = 1
          \<and> pass_expiry
              (users (snd (purchase_pass (snd (purchase_pass s uid 1 now)) uid 2 now)) ! i)
              = now + 30 * 24 * 60 * 60)"
proof -
  let ?u = "users s ! i"
  have i: "i < length (users s)" and id: "user_id ?u = uid"
    using find_user_Some [OF assms(1)] by simp_all
  have ph: "int32 (pass_holders (stats s) + 1) = pass_holders (stats s) + 1"
    by (rule int32_id [OF assms(3)])
  have one: "if wallet_balance ?u < (if pt = 1 then 15 else 50)
          then purchase_pass s uid pt now = (Inl InsufficientFunds, s)
          else fst (purchase_pass s uid pt now)
                 = Inr (wallet_balance ?u - (if pt = 1 then 15 else 50))
             \<and> wallet_balance (users (snd (purchase_pass s uid pt now)) ! i)
                 = wallet_balance ?u - (if pt = 1 then 15 else 50)
             \<and> pass_expiry (users (snd (purchase_pass s uid pt now)) ! i)
                 = now + (if pt = 1 then 7 else 30) * 24 * 60 * 60
             \<and> (if pt = 1 then has_weekly_pass (users (snd (purchase_pass s uid pt now)) ! i)
                 else has_monthly_pass (users (snd (purchase_pass s uid pt now)) ! i)) = 1
             \<and> pass_holders (stats (snd (purchase_pass s uid pt now)))
                 = pass_holders (stats s) + 1"
  proof (cases "wallet_balance ?u < (if pt = 1 then WEEKLY_PASS_COST else MONTHLY_PASS_COST)")
    case True
    from purchase_pass_failure [OF assms(1) assms(2) True] True show ?thesis
      by (auto simp: constants split: if_splits)
  next
    case False
    from purchase_pass_success [OF assms(1) assms(2) False, of now] False i ph show ?thesis
      by (auto simp: constants split: if_splits)
  qed
  have two: "has_monthly_pass
              (users (snd (purchase_pass (snd (purchase_pass s uid 1 now)) uid 2 now)) ! i) = 1
          \<and> pass_expiry
              (users (snd (purchase_pass (snd (purchase_pass s uid 1 now)) uid 2 now)) ! i)
              = now + 30 * 24 * 60 * 60"
    if w: "65 \<le> wallet_balance ?u"
  proof -
    let ?s1 = "snd (purchase_pass s uid 1 now)"
    have a: "\<not> wallet_balance ?u < (if (1::int) = 1 then WEEKLY_PASS_COST else MONTHLY_PASS_COST)"
      using w by (simp add: constants)
    have s1: "users ?s1 = (users s)[i := ?u\<lparr>wallet_balance := wallet_balance ?u - 15,
                 has_weekly_pass := 1, pass_expiry := now + 604800\<rparr>]"
      using purchase_pass_success [OF assms(1) _ a, of now] by (simp add: constants)
    have f1: "find_user (users ?s1) uid = Some i"
      using assms(1) i by (simp add: s1 find_user_update)
    have b: "\<not> wallet_balance (users ?s1 ! i)
               < (if (2::int) = 1 then WEEKLY_PASS_COST else MONTHLY_PASS_COST)"
      using w i by (simp add: s1 constants)
    from purchase_pass_success [OF f1 _ b, of now] i show ?thesis
      by (simp add: s1)
  qed
  from one two show ?thesis by blast
qed

theorem purchase_pass_contract_witness:
  "find_user (users (run initial_system [Register ''Noor'' ''31'' 0, TopUp 1 100])) 1 = Some 0
   \<and> in_int32 (pass_holders (stats (run initial_system [Register ''Noor'' ''31'' 0, TopUp 1 100])) + 1)
   \<and> wallet_balance (users (run initial_system [Register ''Noor'' ''31'' 0, TopUp 1 100]) ! 0) = 102
   \<and> fst (purchase_pass (run initial_system [Register ''Noor'' ''31'' 0, TopUp 1 100]) 1 1 1000)
       = Inr 87
   \<and> pass_expiry (users (run initial_system
        [Register ''Noor'' ''31'' 0, TopUp 1 100, BuyPass 1 1 1000]) ! 0) = 605800
   \<and> pass_holders (stats (run initial_system
        [Register ''Noor'' ''31'' 0, TopUp 1 100, BuyPass 1 1 1000])) = 1
   \<and> pass_expiry (users (run initial_system
        [Register ''Noor'' ''31'' 0, TopUp 1 100, BuyPass 1 1 1000, BuyPass 1 2 1000]) ! 0)
       = 2593000
   \<and> purchase_pass (run initial_system [Register ''Noor'' ''31'' 0, TopUp 1 10]) 1 1 1000
       = (Inl InsufficientFunds, run initial_system [Register ''Noor'' ''31'' 0, TopUp 1 10])"
proof -
  let ?s = "run initial_system [Register ''Noor'' ''31'' 0, TopUp 1 100]"
  let ?t = "run initial_system [Register ''Noor'' ''31'' 0, TopUp 1 10]"
  have h: "find_user (users ?s) 1 = Some 0" by (simp add: operations Let_def)
  have h': "find_user (users ?t) 1 = Some 0" by (simp add: operations Let_def)
  have w: "wallet_balance (users ?s ! 0) = 102" by (simp add: operations Let_def)
  have w': "wallet_balance (users ?t ! 0) = 10" by (simp add: operations Let_def)
  have c: "in_int32 (pass_holders (stats ?s) + 1)" by (simp add: operations in_int32_def Let_def)
  have c': "in_int32 (pass_holders (stats ?t) + 1)" by (simp add: operations in_int32_def Let_def)
  have z: "pass_holders (stats ?s) = 0" by (simp add: operations Let_def)
  show ?thesis
    using h w c z purchase_pass_contract [OF h _ c, of 1 1000]
      purchase_pass_contract [OF h' _ c', of 1 1000] w'
    by (simp add: run_def)
qed


lemma purchase_pass_other_flag:
  assumes "find_user (users s) uid = Some i"
  shows "has_monthly_pass (users (snd (purchase_pass s uid 1 now)) ! i)
           = has_monthly_pass (users s ! i)
       \<and> has_weekly_pass (users (snd (purchase_pass s uid 2 now)) ! i)
           = has_weekly_pass (users s ! i)"
  using assms find_user_Some [OF assms]
  by (simp add: purchase_pass_def Let_def)

text \<open>
  C10. Buying a pass sets the flag of the kind bought and leaves the flag of the other kind
  as it was. After a weekly and then a monthly pass both \<open>has_weekly_pass\<close> and
  \<open>has_monthly_pass\<close> are set, and the one \<open>pass_expiry\<close> field holds the expiry of the
  monthly pass, the most recent one.
\<close>

theorem pass_flags_accumulate:
  assumes "find_user (users s) uid = Some i"
    and "purchase_pass s uid 1 t1 = (Inr r1, s1)"
    and "purchase_pass s1 uid 2 t2 = (Inr r2, s2)"
  shows "has_monthly_pass (users (snd (purchase_pass s uid 1 now)) ! i)
           = has_monthly_pass (users s ! i)
       \<and> has_weekly_pass (users (snd (purchase_pass s uid 2 now)) ! i)
           = has_weekly_pass (users s ! i)
       \<and> has_weekly_pass (users s2 ! i) = 1
       \<and> has_monthly_pass (users s2 ! i) = 1
       \<and> pass_expiry (users s2 ! i) = t2 + 30 * 24 * 60 * 60"
proof -
  let ?u = "users s ! i"
  have i: "i < length (users s)" using find_user_Some [OF assms(1)] by simp
  have a: "\<not> wallet_balance ?u < (if (1::int) = 1 then WEEKLY_PASS_COST else MONTHLY_PASS_COST)"
    using purchase_pass_failure [OF assms(1), of 1 t1] assms(2) by auto
  have s1: "users s1 = (users s)[i := ?u\<lparr>wallet_balance := wallet_balance ?u - WEEKLY_PASS_COST,
                 has_weekly_pass := 1, pass_expiry := t1 + 604800\<rparr>]"
    using purchase_pass_success [OF assms(1) _ a, of t1] assms(2) by auto
  have f1: "find_user (users s1) uid = Some i"
    using assms(1) i by (simp add: s1 find_user_update)
  have b: "\<not> wallet_balance (users s1 ! i)
               < (if (2::int) = 1 then WEEKLY_PASS_COST else MONTHLY_PASS_COST)"
    using purchase_pass_failure [OF f1, of 2 t2] assms(3) by auto
  have "has_weekly_pass (users s2 ! i) = 1 \<and> has_monthly_pass (users s2 ! i) = 1
        \<and> pass_expiry (users s2 ! i) = t2 + 30 * 24 * 60 * 60"
    using purchase_pass_success [OF f1 _ b, of t2] assms(3) i by (auto simp: s1)
  with purchase_pass_other_flag [OF assms(1), of now] show ?thesis by blast
qed

theorem pass_flags_accumulate_witness:
  "find_user (users (run initial_system [Register ''Omar'' ''12'' 0, TopUp 1 100])) 1 = Some 0
   \<and> purchase_pass (run initial_system [Register ''Omar'' ''12'' 0, TopUp 1 100]) 1 1 1000
       = (Inr 87, run initial_system [Register ''Omar'' ''12'' 0, TopUp 1 100, BuyPass 1 1 1000])
   \<and> purchase_pass
        (run initial_system [Register ''Omar'' ''12'' 0, TopUp 1 100, BuyPass 1 1 1000]) 1 2 2000
       = (Inr 37, run initial_system
            [Register ''Omar'' ''12'' 0, TopUp 1 100, BuyPass 1 1 1000, BuyPass 1 2 2000])
   \<and> has_weekly_pass (users (run initial_system
        [Register ''Omar'' ''12'' 0, TopUp 1 100, BuyPass 1 1 1000, BuyPass 1 2 2000]) ! 0) = 1
   \<and> has_monthly_pass (users (run initial_system
        [Register ''Omar'' ''12'' 0, TopUp 1 100, BuyPass 1 1 1000, BuyPass 1 2 2000]) ! 0) = 1
   \<and> pass_expiry (users (run initial_system
        [Register ''Omar'' ''12'' 0, TopUp 1 100, BuyPass 1 1 1000, BuyPass 1 2 2000]) ! 0)
       = 2594000"
proof -
  let ?s = "run initial_system [Register ''Omar'' ''12'' 0, TopUp 1 100]"
  let ?s1 = "run initial_system [Register ''Omar'' ''12'' 0, TopUp 1 100, BuyPass 1 1 1000]"
  let ?s2 = "run initial_system
               [Register ''Omar'' ''12'' 0, TopUp 1 100, BuyPass 1 1 1000, BuyPass 1 2 2000]"
  have h: "find_user (users ?s) 1 = Some 0" by (simp add: operations Let_def)
  have p1: "purchase_pass ?s 1 1 1000 = (Inr 87, ?s1)" by (simp add: operations Let_def)
  have p2: "purchase_pass ?s1 1 2 2000 = (Inr 37, ?s2)" by (simp add: operations Let_def)
  show ?thesis
    using h p1 p2 pass_flags_accumulate [OF h p1 p2, of 0] by simp
qed


section \<open>Purchases at concrete states\<close>

text \<open>
  C1. The specification has every purchase subtract the full discount of the engine from
  the base cost, whatever the payment method and whether or not the user holds a valid pass.
  The code calls \<open>calculate_discount\<close> in the cash branch and in the digital branch
  without a valid pass only. Here a student holding a weekly pass that expires at time
  604800 buys 5 litres at time 1: the engine would give 1.00, the cash purchase gets it, the
  digital purchase is charged the full 10.00 with discount 0.
\<close>

theorem pass_holder_digital_purchase_without_discount:
  "has_weekly_pass
     (users (run initial_system [Register ''Lena'' ''40'' 1, TopUp 1 100, BuyPass 1 1 0]) ! 0) = 1
   \<and> pass_expiry
     (users (run initial_system [Register ''Lena'' ''40'' 1, TopUp 1 100, BuyPass 1 1 0]) ! 0)
       = 604800
   \<and> fst (calculate_discount
        (users (run initial_system [Register ''Lena'' ''40'' 1, TopUp 1 100, BuyPass 1 1 0]) ! 0)
        5 ''Digital'') = 1
   \<and> fst (purchase_water
        (run initial_system [Register ''Lena'' ''40'' 1, TopUp 1 100, BuyPass 1 1 0]) 1 5 2 1)
       = Inr \<lparr>base_cost = 10, discount = 0, fee = 0, final_amount = 10\<rparr>
   \<and> fst (purchase_water
        (run initial_system [Register ''Lena'' ''40'' 1, TopUp 1 100, BuyPass 1 1 0]) 1 5 1 1)
       = Inr \<lparr>base_cost = 10, discount = 1, fee = 0, final_amount = 9\<rparr>"
  by (simp add: operations Let_def)

lemma failed_purchase_frame:
  assumes "find_user (users s) uid = Some i"
    and "purchase_water s uid l pc now = (Inl e, s')"
  shows "transactions s' = transactions s \<and> stats s' = stats s
       \<and> users s' =
           (users s)[i := (users s ! i)\<lparr>loyalty_points := loyalty_points (users s' ! i)\<rparr>]"
  using assms find_user_Some [OF assms(1)]
  by (auto simp: purchase_water_def payment_def calculate_discount_def Let_def
      split: if_splits prod.splits sum.splits)

text \<open>
  C2. The specification has a digital purchase that fails with \<open>InsufficientFunds\<close>
  change no state. The code runs \<open>calculate_discount\<close>, which redeems 100 loyalty points, before it
  checks the balance. Here a user with 100 points and an empty wallet asks for 9 litres by
  digital payment: the purchase fails and the 100 points are gone.
\<close>

theorem insufficient_funds_consumes_points:
  "loyalty_points
     (users (run initial_system [Register ''Kofi'' ''20'' 0, Purchase 1 50 1 0]) ! 0) = 100
   \<and> wallet_balance
     (users (run initial_system [Register ''Kofi'' ''20'' 0, Purchase 1 50 1 0]) ! 0) = 0
   \<and> fst (purchase_water
        (run initial_system [Register ''Kofi'' ''20'' 0, Purchase 1 50 1 0]) 1 9 2 0)
       = Inl InsufficientFunds
   \<and> loyalty_points
       (users (snd (purchase_water
          (run initial_system [Register ''Kofi'' ''20'' 0, Purchase 1 50 1 0]) 1 9 2 0)) ! 0) = 0"
  by (simp add: operations Let_def)

text \<open>
  C9. A reachable state where the discount exceeds base cost plus fee: after a cash purchase
  of 1000 litres the user has spent 2000.00, so a digital purchase of one litre (base cost
  2.00) gets a discount of 105.00 and a final amount of -103.00. The purchase succeeds with
  an empty wallet, the wallet grows to 103.00, and the ledger records the amount -103.00.
\<close>

theorem negative_final_amount_reachable:
  "wallet_balance
     (users (run initial_system [Register ''Zoe'' ''90'' 0, Purchase 1 1000 1 0]) ! 0) = 0
   \<and> total_spent
     (users (run initial_system [Register ''Zoe'' ''90'' 0, Purchase 1 1000 1 0]) ! 0) = 2000
   \<and> fst (purchase_water
        (run initial_system [Register ''Zoe'' ''90'' 0, Purchase 1 1000 1 0]) 1 1 2 0)
       = Inr \<lparr>base_cost = 2, discount = 105, fee = 0, final_amount = - 103\<rparr>
   \<and> wallet_balance
       (users (snd (purchase_water
          (run initial_system [Register ''Zoe'' ''90'' 0, Purchase 1 1000 1 0]) 1 1 2 0)) ! 0)
       = 103
   \<and> amount (last (transactions (snd (purchase_water
          (run initial_system [Register ''Zoe'' ''90'' 0, Purchase 1 1000 1 0]) 1 1 2 0))))
       = - 103
   \<and> payment_method (last (transactions (snd (purchase_water
          (run initial_system [Register ''Zoe'' ''90'' 0, Purchase 1 1000 1 0]) 1 1 2 0))))
       = ''Digital''"
  by (simp add: operations Let_def)


section \<open>Analytics against the ledger\<close>

lemma purchase_water_Inl:
  "purchase_water s uid l pc now = (Inl e, s') \<Longrightarrow>
     transactions s' = transactions s \<and> stats s' = stats s"
  by (auto simp: purchase_water_def payment_def Let_def
      split: option.splits if_splits prod.splits sum.splits)

lemma ledger_snoc:
  "ledger_revenue (txns @ [t]) = ledger_revenue txns + liters t * WATER_PRICE_PER_LITER"
  "ledger_fees (txns @ [t]) = ledger_fees txns + fee_charged t"
  "ledger_discounts (txns @ [t]) = ledger_discounts txns + discount_applied t"
  "ledger_count m (txns @ [t]) = ledger_count m txns + (if payment_method t = m then 1 else 0)"
  by (simp_all add: ledger_revenue_def ledger_fees_def ledger_discounts_def ledger_count_def)

lemma ledger_count_bounds: "0 \<le> ledger_count m txns \<and> ledger_count m txns \<le> int (length txns)"
  by (simp add: ledger_count_def)

lemma purchase_water_consistent:
  assumes c: "analytics_consistent s"
    and n: "length (transactions s) < MAX_TRANSACTIONS"
  shows "analytics_consistent (snd (purchase_water s uid l pc now))
       \<and> length (transactions (snd (purchase_water s uid l pc now)))
           \<le> Suc (length (transactions s))"
proof (cases "purchase_water s uid l pc now")
  case (Pair res s')
  show ?thesis
  proof (cases res)
    case (Inl e)
    with Pair purchase_water_Inl [of s uid l pc now e s'] c show ?thesis
      by (simp add: analytics_consistent_def)
  next
    case (Inr r)
    with Pair have pw: "purchase_water s uid l pc now = (Inr r, s')" by simp
    then obtain i where f: "find_user (users s) uid = Some i"
      by (auto simp: purchase_water_def split: option.splits)
    from purchase_water_Inr [OF f pw] obtain m u1 st1 where
      p: "payment (users s ! i) (stats s) l pc now
            = (Inr (m, fee r, discount r, final_amount r), u1, st1)"
      and b: "base_cost r = l * WATER_PRICE_PER_LITER"
      and tx: "transactions s'
             = save_transaction (transactions s) uid (final_amount r) l m (fee r) (discount r) now"
      and st: "stats s' =
             (if l \<ge> MIN_BULK_LITERS
              then st1\<lparr>bulk_purchases := int32 (bulk_purchases st1 + 1)\<rparr> else st1)
               \<lparr>total_revenue := total_revenue st1 + base_cost r,
                total_fees_collected := total_fees_collected st1 + fee r,
                total_discounts_given := total_discounts_given st1 + discount r\<rparr>"
      by blast
    let ?t = "\<lparr>transaction_id = int32 (int (length (transactions s)) + 1), txn_user_id = uid,
               amount = final_amount r, liters = l, payment_method = m, fee_charged = fee r,
               discount_applied = discount r, timestamp = now\<rparr>"
    have tx': "transactions s' = transactions s @ [?t]"
      using tx n by (simp add: save_transaction_def)
    have cb: "0 \<le> ledger_count ''Cash'' (transactions s)
              \<and> ledger_count ''Cash'' (transactions s) < 5000"
      using ledger_count_bounds [of "''Cash''" "transactions s"] n by (simp add: constants)
    have db: "0 \<le> ledger_count ''Digital'' (transactions s)
              \<and> ledger_count ''Digital'' (transactions s) < 5000"
      using ledger_count_bounds [of "''Digital''" "transactions s"] n by (simp add: constants)
    have ci: "int32 (ledger_count ''Cash'' (transactions s) + 1)
                = ledger_count ''Cash'' (transactions s) + 1"
      using cb by (intro int32_id) (simp add: in_int32_def)
    have di: "int32 (ledger_count ''Digital'' (transactions s) + 1)
                = ledger_count ''Digital'' (transactions s) + 1"
      using db by (intro int32_id) (simp add: in_int32_def)
    from payment_stats [OF p] have "analytics_consistent s'"
    proof
      assume "pc = 1 \<and> m = ''Cash''
              \<and> st1 = (stats s)\<lparr>cash_transactions := int32 (cash_transactions (stats s) + 1)\<rparr>"
      with c st tx' b ci show ?thesis
        by (simp add: analytics_consistent_def ledger_snoc)
    next
      assume "pc = 2 \<and> m = ''Digital''
              \<and> st1 = (stats s)\<lparr>digital_transactions :=
                                  int32 (digital_transactions (stats s) + 1)\<rparr>"
      with c st tx' b di show ?thesis
        by (simp add: analytics_consistent_def ledger_snoc)
    qed
    with Pair tx' show ?thesis by simp
  qed
qed

lemma serve_other_consistent:
  "\<not> is_purchase rq \<Longrightarrow>
     transactions (serve s rq) = transactions s
   \<and> analytics_consistent (serve s rq) = analytics_consistent s"
  by (cases rq)
     (auto simp: register_user_def top_up_wallet_def purchase_pass_def Let_def
         analytics_consistent_def split: option.splits)

text \<open>
  C3, within the capacity of the ledger. From a state whose analytics agree with the ledger (the initial state is
  one), any run of requests keeps the agreement as long as the ledger has room for every
  purchase of the run: the records already stored plus the purchase requests do not exceed
  \<open>MAX_TRANSACTIONS\<close>. Then the revenue is the sum of \<open>liters * 2.00\<close> over the ledger,
  the fees and discounts are the sums of \<open>fee_charged\<close> and \<open>discount_applied\<close>, and the
  cash and digital counters are the numbers of records of each payment method.
\<close>

theorem analytics_match_ledger:
  assumes "analytics_consistent s"
    and "length (transactions s) + length (filter is_purchase rs) \<le> MAX_TRANSACTIONS"
  shows "analytics_consistent (run s rs)"
  using assms
proof (induction rs arbitrary: s)
  case Nil
  then show ?case by (simp add: run_def)
next
  case (Cons rq rs)
  have r: "run s (rq # rs) = run (serve s rq) rs" by (simp add: run_def)
  show ?case
  proof (cases "is_purchase rq")
    case False
    with Cons.prems serve_other_consistent [OF False, of s]
    have "analytics_consistent (serve s rq)"
      and "length (transactions (serve s rq)) + length (filter is_purchase rs) \<le> MAX_TRANSACTIONS"
      by simp_all
    then show ?thesis unfolding r by (rule Cons.IH)
  next
    case True
    then obtain uid l pc now where rq: "rq = Purchase uid l pc now" by (cases rq) simp_all
    from True Cons.prems(2) have n: "length (transactions s) < MAX_TRANSACTIONS" by simp
    from purchase_water_consistent [OF Cons.prems(1) n, of uid l pc now] rq True Cons.prems(2)
    have "analytics_consistent (serve s rq)"
      and "length (transactions (serve s rq)) + length (filter is_purchase rs) \<le> MAX_TRANSACTIONS"
      by simp_all
    then show ?thesis unfolding r by (rule Cons.IH)
  qed
qed


theorem analytics_match_ledger_witness:
  "analytics_consistent initial_system
   \<and> length (transactions initial_system)
       + length (filter is_purchase
           [Register ''Tara'' ''61'' 1, Purchase 1 12 1 0, TopUp 1 50, Purchase 1 3 2 5])
       \<le> MAX_TRANSACTIONS
   \<and> analytics_consistent (run initial_system
        [Register ''Tara'' ''61'' 1, Purchase 1 12 1 0, TopUp 1 50, Purchase 1 3 2 5])
   \<and> length (transactions (run initial_system
        [Register ''Tara'' ''61'' 1, Purchase 1 12 1 0, TopUp 1 50, Purchase 1 3 2 5])) = 2"
proof -
  let ?rs = "[Register ''Tara'' ''61'' 1, Purchase 1 12 1 0, TopUp 1 50, Purchase 1 3 2 5]"
  have a: "analytics_consistent initial_system"
    by (simp add: analytics_consistent_def initial_system_def ledger_revenue_def ledger_fees_def
        ledger_discounts_def ledger_count_def)
  have b: "length (transactions initial_system) + length (filter is_purchase ?rs)
             \<le> MAX_TRANSACTIONS"
    by (simp add: initial_system_def constants)
  have c: "length (transactions (run initial_system ?rs)) = 2"
    by (simp add: operations Let_def)
  show ?thesis using a b c analytics_match_ledger [OF a b] by simp
qed

text \<open>
  Without the bound the agreement fails: \<open>save_transaction\<close> drops every record once the
  ledger holds \<open>MAX_TRANSACTIONS\<close> of them, while \<open>purchase_water\<close> goes on counting.
\<close>

lemma calculate_discount_user_id: "user_id (snd (calculate_discount u l m)) = user_id u"
  by (simp add: calculate_discount_def Let_def)

lemma purchase_water_ledger_bound:
  "length (transactions s) \<le> MAX_TRANSACTIONS \<Longrightarrow>
     length (transactions (snd (purchase_water s uid l pc now))) \<le> MAX_TRANSACTIONS"
  by (auto simp: purchase_water_def save_transaction_def Let_def
      split: option.splits if_splits prod.splits sum.splits)

lemma cash_purchase_step:
  assumes "find_user (users s) uid = Some i" and "0 < l"
  shows "find_user (users (snd (purchase_water s uid l 1 now))) uid = Some i
       \<and> cash_transactions (stats (snd (purchase_water s uid l 1 now)))
           = int32 (cash_transactions (stats s) + 1)"
proof -
  have i: "i < length (users s)" using find_user_Some [OF assms(1)] by simp
  obtain d u1 where cd: "calculate_discount (users s ! i) l ''Cash'' = (d, u1)"
    by (cases "calculate_discount (users s ! i) l ''Cash''")
  with calculate_discount_user_id [of "users s ! i" l "''Cash''"]
  have id: "user_id u1 = user_id (users s ! i)" by simp
  show ?thesis
    using assms i cd id
    by (simp add: purchase_water_def payment_def Let_def update_loyalty_points_def
        find_user_update)
qed

lemma repeated_cash_purchases:
  assumes "find_user (users s) uid = Some i" and "0 < l"
    and "0 \<le> cash_transactions (stats s)"
    and "cash_transactions (stats s) + int n \<le> 2147483647"
    and "length (transactions s) \<le> MAX_TRANSACTIONS"
  shows "cash_transactions (stats (run s (replicate n (Purchase uid l 1 now))))
           = cash_transactions (stats s) + int n
       \<and> length (transactions (run s (replicate n (Purchase uid l 1 now)))) \<le> MAX_TRANSACTIONS"
  using assms
proof (induction n arbitrary: s)
  case 0
  then show ?case by (simp add: run_def)
next
  case (Suc n)
  let ?s' = "snd (purchase_water s uid l 1 now)"
  have r: "run s (replicate (Suc n) (Purchase uid l 1 now))
             = run ?s' (replicate n (Purchase uid l 1 now))"
    by (simp add: run_def)
  from cash_purchase_step [OF Suc.prems(1) Suc.prems(2), of now]
  have f: "find_user (users ?s') uid = Some i"
    and c: "cash_transactions (stats ?s') = int32 (cash_transactions (stats s) + 1)"
    by simp_all
  have "in_int32 (cash_transactions (stats s) + 1)"
    using Suc.prems(3) Suc.prems(4) by (simp add: in_int32_def)
  with c have c': "cash_transactions (stats ?s') = cash_transactions (stats s) + 1"
    by (simp add: int32_id)
  have b: "length (transactions ?s') \<le> MAX_TRANSACTIONS"
    by (rule purchase_water_ledger_bound [OF Suc.prems(5)])
  from Suc.IH [OF f Suc.prems(2) _ _ b] c' Suc.prems(3) Suc.prems(4)
  show ?case unfolding r by simp
qed

text \<open>
  C3 without the capacity bound fails after 5001 successful cash purchases of one user: the
  cash counter is 5001 and the ledger holds at most 5000 records.
\<close>

theorem ledger_full_counterexample:
  "\<not> analytics_consistent
       (run initial_system (Register ''Ida'' ''70'' 0 # replicate 5001 (Purchase 1 1 1 0)))"
proof
  let ?reg = "snd (register_user initial_system ''Ida'' ''70'' 0)"
  let ?fin = "run ?reg (replicate 5001 (Purchase 1 1 1 0))"
  assume "analytics_consistent
       (run initial_system (Register ''Ida'' ''70'' 0 # replicate 5001 (Purchase 1 1 1 0)))"
  then have a: "analytics_consistent ?fin" by (simp add: run_def)
  have f: "find_user (users ?reg) 1 = Some 0" by (simp add: operations Let_def)
  have z: "cash_transactions (stats ?reg) = 0" by (simp add: operations Let_def)
  have t: "length (transactions ?reg) \<le> MAX_TRANSACTIONS" by (simp add: operations Let_def)
  have l: "(0::real) < 1" by simp
  have n: "cash_transactions (stats ?reg) + int 5001 \<le> 2147483647" by (simp add: z)
  have p: "0 \<le> cash_transactions (stats ?reg)" by (simp add: z)
  from repeated_cash_purchases [OF f l p n t, of 0] z
  have c: "cash_transactions (stats ?fin) = 5001"
    and b: "length (transactions ?fin) \<le> MAX_TRANSACTIONS"
    by simp_all
  from a c have "ledger_count ''Cash'' (transactions ?fin) = 5001"
    by (simp add: analytics_consistent_def)
  with ledger_count_bounds [of "''Cash''" "transactions ?fin"] b show False
    by (simp add: constants)
qed


end
